theory Spec2Isabelle
  imports Complex_Main "HOL-Library.Multiset"
begin

section \<open>Data model\<close>

text \<open>
  The exceptions the modelled Python code can raise. Every \<open>assert\<close>, failed lookup and
  out-of-range index of the source is a branch returning \<open>Inl\<close> of one of them.
\<close>

datatype error = AssertionError | TypeError | IndexError | KeyError | ValueError
  | ZeroDivisionError

text \<open>
  A two-dimensional numpy array: \<open>np.shape(A)\<close> is \<open>(shape0 A, shape1 A)\<close>, the cells are
  kept row by row. The shape is stored, as numpy does, so that an array without rows
  still has a column count.
\<close>

record 'a ndarray =
  shape0 :: nat
  shape1 :: nat
  rows :: "'a list list"

definition wf_ndarray :: "'a ndarray \<Rightarrow> bool" where
  "wf_ndarray A \<longleftrightarrow>
     length (rows A) = shape0 A \<and> list_all (\<lambda>r. length r = shape1 A) (rows A)"

text \<open>\<open>np.zeros([n, k])\<close>.\<close>

definition zeros :: "nat \<Rightarrow> nat \<Rightarrow> ('a::zero) ndarray" where
  "zeros n k = \<lparr>shape0 = n, shape1 = k, rows = replicate n (replicate k 0)\<rparr>"

text \<open>\<open>A[:, j]\<close> for a non-negative \<open>j\<close>: the column as a vector, IndexError out of range.\<close>

definition get_col :: "'a ndarray \<Rightarrow> nat \<Rightarrow> error + 'a list" where
  "get_col A j = (if j < shape1 A then Inr (map (\<lambda>r. r ! j) (rows A)) else Inl IndexError)"

text \<open>
  \<open>B[:, k] = v\<close>: IndexError when \<open>k\<close> is out of range; a vector of the column's length
  is stored cell by cell, a vector of length one is broadcast, any other length is a
  ValueError.
\<close>

definition set_col :: "'a ndarray \<Rightarrow> nat \<Rightarrow> 'a list \<Rightarrow> error + 'a ndarray" where
  "set_col B k v =
     (if \<not> k < shape1 B then Inl IndexError
      else if length v = shape0 B then
        Inr (B\<lparr>rows := map2 (\<lambda>r x. r[k := x]) (rows B) v\<rparr>)
      else if length v = 1 then
        Inr (B\<lparr>rows := map (\<lambda>r. r[k := v ! 0]) (rows B)\<rparr>)
      else Inl ValueError)"

text \<open>A \<open>for\<close> loop over a list whose body may raise: the first error ends the loop.\<close>

fun for_loop :: "'i list \<Rightarrow> ('i \<Rightarrow> 's \<Rightarrow> error + 's) \<Rightarrow> 's \<Rightarrow> error + 's" where
  "for_loop [] body s = Inr s"
| "for_loop (x # xs) body s =
     (case body x s of Inl e \<Rightarrow> Inl e | Inr s' \<Rightarrow> for_loop xs body s')"

section \<open>fpm_operations.py\<close>

subsection \<open>triangular\<close>

text \<open>\<open>sum(range(n+1))\<close>\<close>

definition triangular :: "nat \<Rightarrow> nat" where
  "triangular n = sum_list [0..<n + 1]"

subsection \<open>The pairwise expansions\<close>

text \<open>
  \<open>get_order_2\<close>, \<open>get_order_2ab\<close> and \<open>get_ablog\<close> are the same two nested loops around
  one differing line, the one computing \<open>new_feature\<close> from the columns \<open>A[:, f1]\<close> and
  \<open>A[:, f2]\<close>. \<open>pair_step\<close> is the body of the inner loop with that line as the
  parameter \<open>comb\<close>: it reads the two columns, stores the new feature at column \<open>nfi\<close> of
  \<open>new_features\<close> and increments \<open>nfi\<close>. \<open>pair_loops\<close> is the function around it.
\<close>

definition pair_step ::
  "('a list \<Rightarrow> 'a list \<Rightarrow> 'a list) \<Rightarrow> 'a ndarray \<Rightarrow> nat \<Rightarrow> nat \<Rightarrow>
     'a ndarray \<times> nat \<Rightarrow> error + ('a ndarray \<times> nat)" where
  "pair_step comb A f1 f2 st =
     (case st of (new_features, nfi) \<Rightarrow>
        (case get_col A f1 of Inl e \<Rightarrow> Inl e | Inr c1 \<Rightarrow>
        (case get_col A f2 of Inl e \<Rightarrow> Inl e | Inr c2 \<Rightarrow>
        (case set_col new_features nfi (comb c1 c2) of Inl e \<Rightarrow> Inl e
         | Inr nf \<Rightarrow> Inr (nf, nfi + 1)))))"

definition pair_loops ::
  "('a list \<Rightarrow> 'a list \<Rightarrow> 'a list) \<Rightarrow> ('a::zero) ndarray \<Rightarrow> error + 'a ndarray" where
  "pair_loops comb A =
     (let nfi = 0;
          new_features = zeros (shape0 A) (triangular (shape1 A))
      in case for_loop [0..<shape1 A]
                (\<lambda>f1. for_loop [f1..<shape1 A] (pair_step comb A f1))
                (new_features, nfi)
         of Inl e \<Rightarrow> Inl e | Inr (new_features', nfi') \<Rightarrow> Inr new_features')"

text \<open>\<open>A[:, f1]*A[:, f2]\<close>: the elementwise product of two columns.\<close>

definition get_order_2 :: "('a::{zero,times}) ndarray \<Rightarrow> error + 'a ndarray" where
  "get_order_2 A = pair_loops (\<lambda>c1 c2. map2 (*) c1 c2) A"

text \<open>
  \<open>A[:, f1]**a * A[:, f2]**b\<close>. The power is numpy's, which is not part of this
  repository: it is the parameter \<open>pw\<close>.
\<close>

definition get_order_2ab ::
  "('a \<Rightarrow> 'e \<Rightarrow> 'a) \<Rightarrow> ('a::{zero,times}) ndarray \<Rightarrow> 'e \<Rightarrow> 'e \<Rightarrow> error + 'a ndarray" where
  "get_order_2ab pw A a b =
     pair_loops (\<lambda>c1 c2. map2 (*) (map (\<lambda>x. pw x a) c1) (map (\<lambda>x. pw x b) c2)) A"

text \<open>
  \<open>get_labels_order_2\<close>: the same two loops over \<open>range(L)\<close> and \<open>range(f1, L)\<close>, appending
  \<open>x[f1] + '_x_' + x[f2]\<close>. The indices come from the ranges, so they are in range.
\<close>

definition get_labels_order_2 :: "string list \<Rightarrow> string list" where
  "get_labels_order_2 x =
     (let L = length x in
      fold (\<lambda>f1 new_features.
              fold (\<lambda>f2 new_features. new_features @ [x ! f1 @ ''_x_'' @ x ! f2])
                   [f1..<L] new_features)
           [0..<L] [])"

subsection \<open>The enumeration of the pairs\<close>

text \<open>
  The pairs \<open>(i, j)\<close> with \<open>i \<le> j < m\<close>, \<open>i\<close> outer and \<open>j\<close> inner: the order the claims
  about the expansions refer to. \<open>lex_less\<close> is the lexicographic order on pairs.
\<close>

definition pairs :: "nat \<Rightarrow> (nat \<times> nat) list" where
  "pairs m = concat (map (\<lambda>i. map (Pair i) [i..<m]) [0..<m])"

definition lex_less :: "nat \<times> nat \<Rightarrow> nat \<times> nat \<Rightarrow> bool" where
  "lex_less p q \<longleftrightarrow> fst p < fst q \<or> (fst p = fst q \<and> snd p < snd q)"

text \<open>
  \<open>fill_row k vs r\<close> is the row \<open>r\<close> after the cells from \<open>k\<close> on have been overwritten
  with \<open>vs\<close>. It describes the state of \<open>new_features\<close> between two steps of the loops.
\<close>

definition fill_row :: "nat \<Rightarrow> 'a list \<Rightarrow> 'a list \<Rightarrow> 'a list" where
  "fill_row k vs r = take k r @ vs @ drop (k + length vs) r"

subsection \<open>do_sis\<close>

text \<open>
  An index into a numpy axis of length \<open>m\<close>: a negative index counts from the end,
  anything outside \<open>-m \<le> i < m\<close> raises IndexError.
\<close>

definition np_index :: "nat \<Rightarrow> int \<Rightarrow> error + nat" where
  "np_index m i =
     (if 0 \<le> i \<and> i < int m then Inr (nat i)
      else if - int m \<le> i \<and> i < 0 then Inr (nat (i + int m))
      else Inl IndexError)"

fun np_indices :: "nat \<Rightarrow> int list \<Rightarrow> error + nat list" where
  "np_indices m [] = Inr []"
| "np_indices m (i # is) =
     (case np_index m i of Inl e \<Rightarrow> Inl e
      | Inr j \<Rightarrow> (case np_indices m is of Inl e \<Rightarrow> Inl e | Inr js \<Rightarrow> Inr (j # js)))"

text \<open>\<open>X[:, idx]\<close> and \<open>l[idx]\<close> for an index list \<open>idx\<close> (\<open>l\<close> a one-dimensional array).\<close>

definition take_cols :: "'a ndarray \<Rightarrow> int list \<Rightarrow> error + 'a ndarray" where
  "take_cols X idx =
     (case np_indices (shape1 X) idx of Inl e \<Rightarrow> Inl e
      | Inr js \<Rightarrow> Inr \<lparr>shape0 = shape0 X, shape1 = length js,
                        rows = map (\<lambda>r. map (\<lambda>j. r ! j) js) (rows X)\<rparr>)"

definition take_items :: "'b list \<Rightarrow> int list \<Rightarrow> error + 'b list" where
  "take_items l idx =
     (case np_indices (length l) idx of Inl e \<Rightarrow> Inl e
      | Inr js \<Rightarrow> Inr (map (\<lambda>j. l ! j) js))"

text \<open>
  \<open>sure_independence_screening\<close> is imported from \<open>fingerprint_setup\<close>, which is not part
  of the modelled files: it is a parameter, a function of \<open>y\<close>, \<open>X\<close> and the requested
  \<open>size\<close> that gives the \<open>'accepted'\<close> entry of its result.
\<close>

type_synonym ('y, 'a) screening = "'y \<Rightarrow> 'a ndarray \<Rightarrow> int \<Rightarrow> int list"

text \<open>
  The \<open>while\<close> loop of \<open>do_sis\<close>. It may run forever (an oracle that never shrinks
  \<open>X\<close>), so not returning is the value \<open>None\<close>. The loop's variables are \<open>shape\<close>, \<open>X\<close> and
  \<open>l\<close>; \<open>calls\<close> records the \<open>size\<close> argument of every call of the oracle, in order.
  As in the source, \<open>shape\<close> is assigned at the start of the body, before \<open>X\<close> is
  narrowed, and the loop test reads that value.
\<close>

partial_function (option) sis_loop ::
  "('y, 'a) screening \<Rightarrow> 'y \<Rightarrow> int \<Rightarrow> int \<Rightarrow> nat \<times> nat \<Rightarrow> 'a ndarray \<Rightarrow> 'b list option \<Rightarrow>
     int list \<Rightarrow> ((error + 'a ndarray \<times> 'b list option) \<times> int list) option" where
  "sis_loop sis y size' increment shape X l calls =
     (if int (snd shape) > size' then
        (let shape = (shape0 X, shape1 X);
             k = int (snd shape) - increment;
             accepted = sis y X k;
             calls = calls @ [k]
         in case take_cols X accepted of Inl e \<Rightarrow> Some (Inl e, calls)
            | Inr X' \<Rightarrow>
               (case l of None \<Rightarrow> sis_loop sis y size' increment shape X' None calls
                | Some lv \<Rightarrow>
                   (case take_items lv accepted of Inl e \<Rightarrow> Some (Inl e, calls)
                    | Inr l' \<Rightarrow> sis_loop sis y size' increment shape X' (Some l') calls)))
      else Some (Inr (X, l), calls))"

declare sis_loop.simps [code]

text \<open>
  \<open>do_sis(X, y, l=None, size=None, increment=1)\<close>. \<open>len(l)\<close> of the assertion raises
  TypeError when \<open>l\<close> is \<open>None\<close>. The result pairs the outcome with the record of the
  oracle's calls.
\<close>

definition do_sis ::
  "('y, 'a) screening \<Rightarrow> 'a ndarray \<Rightarrow> 'y \<Rightarrow> 'b list option \<Rightarrow> int option \<Rightarrow> int \<Rightarrow>
     ((error + 'a ndarray \<times> 'b list option) \<times> int list) option" where
  "do_sis sis X y l size' increment =
     (let shape = (shape0 X, shape1 X) in
      case l of None \<Rightarrow> Some (Inl TypeError, [])
      | Some lv \<Rightarrow>
         if \<not> snd shape = length lv then Some (Inl AssertionError, [])
         else let size' = (case size' of None \<Rightarrow> int (fst shape) | Some s \<Rightarrow> s)
              in sis_loop sis y size' increment shape X l [])"

text \<open>An oracle that accepts the first \<open>size\<close> columns.\<close>

definition first_k :: "('y, 'a) screening" where
  "first_k y X k = map int [0..<nat k]"

subsection \<open>fpmatrix_split\<close>

text \<open>
  The module does not import \<open>division\<close> from \<open>__future__\<close> and wraps the slice bounds in
  \<open>int(...)\<close>: \<open>len(self.X) / nsplit\<close> is true division and \<open>n\<close>, \<open>s1\<close> and \<open>s2\<close> are
  fractions. They are modelled as exact rationals; \<open>int\<close> truncates towards zero.
\<close>

definition py_int :: "rat \<Rightarrow> int" where
  "py_int q = (if 0 \<le> q then \<lfloor>q\<rfloor> else \<lceil>q\<rceil>)"

text \<open>\<open>xs[a:b]\<close>: negative bounds count from the end, bounds are clipped to the list.\<close>

definition py_slice :: "'a list \<Rightarrow> int \<Rightarrow> int \<Rightarrow> 'a list" where
  "py_slice xs a b =
     (let n = int (length xs);
          lo = (if a < 0 then max 0 (a + n) else min a n);
          hi = (if b < 0 then max 0 (b + n) else min b n)
      in take (nat (hi - lo)) (drop (nat lo) xs))"

text \<open>\<open>X[idx]\<close> for a list of row numbers.\<close>

definition take_rows :: "'a ndarray \<Rightarrow> nat list \<Rightarrow> error + 'a ndarray" where
  "take_rows X idx =
     (if list_all (\<lambda>i. i < shape0 X) idx
      then Inr \<lparr>shape0 = length idx, shape1 = shape1 X, rows = map (\<lambda>i. rows X ! i) idx\<rparr>
      else Inl IndexError)"

text \<open>
  \<open>random.shuffle\<close> reorders a list in place from the process-wide random source. The
  source is the explicit state \<open>'g\<close>: a shuffle takes it and the list and returns the
  reordered list and the new state.
\<close>

type_synonym 'g shuffle = "'g \<Rightarrow> nat list \<Rightarrow> nat list \<times> 'g"

text \<open>
  The body of \<open>for _ in range(nsplit)\<close>. The loop's variables are
  \<open>(dataset, index, s1, s2, r)\<close> and the random source; \<open>n\<close> does not change in the loop.
  \<open>r\<close> is only read when \<open>fix_size\<close> is \<open>None\<close>.
\<close>

definition split_body ::
  "'g shuffle \<Rightarrow> 'a ndarray \<Rightarrow> int option \<Rightarrow> bool \<Rightarrow> rat \<Rightarrow> nat \<Rightarrow>
     'a ndarray list \<times> nat list \<times> rat \<times> rat \<times> int \<times> 'g \<Rightarrow>
     error + ('a ndarray list \<times> nat list \<times> rat \<times> rat \<times> int \<times> 'g)" where
  "split_body shuffle X fix_size replacement n u st =
     (case st of (dataset, index, s1, s2, r, g) \<Rightarrow>
       (case (if replacement then shuffle g index else (index, g)) of (index, g) \<Rightarrow>
         (case take_rows X (py_slice index (py_int s1) (py_int s2)) of
            Inl e \<Rightarrow> Inl e
          | Inr grp \<Rightarrow>
             (let dataset = dataset @ [grp];
                  s1 = s2
              in case fix_size of
                   None \<Rightarrow>
                     (let r = max 0 (r - 1);
                          s2 = s2 + n + of_int (min 1 r)
                      in Inr (dataset, index, s1, s2, r, g))
                 | Some fs \<Rightarrow>
                     (let s2 = s2 + of_int fs
                      in Inr (dataset, index, s1, s2, r, g))))))"

text \<open>
  \<open>fpmatrix_split(self, nsplit, fix_size=None, replacement=False)\<close> with \<open>self.X = X\<close>.
  It returns the list of groups and the random source after the call.
\<close>

definition fpmatrix_split ::
  "'g shuffle \<Rightarrow> 'g \<Rightarrow> 'a ndarray \<Rightarrow> int \<Rightarrow> int option \<Rightarrow> bool \<Rightarrow>
     error + ('a ndarray list \<times> 'g)" where
  "fpmatrix_split shuffle g X nsplit fix_size replacement =
     (let len = int (shape0 X) in
      if (case fix_size of None \<Rightarrow> False | Some fs \<Rightarrow> \<not> len \<ge> nsplit * fs)
      then Inl AssertionError
      else
        (case shuffle g [0..<shape0 X] of (index, g) \<Rightarrow>
           (case (case fix_size of
                    None \<Rightarrow>
                      if nsplit = 0 then Inl ZeroDivisionError
                      else (let n = of_int len / of_int nsplit;
                                r = len mod nsplit
                            in Inr (n, r, n + of_int (min 1 r)))
                  | Some fs \<Rightarrow> Inr (0, 0, of_int fs))
            of Inl e \<Rightarrow> Inl e
             | Inr (n, r, s2) \<Rightarrow>
                (case for_loop [0..<nat nsplit] (split_body shuffle X fix_size replacement n)
                        ([], index, 0, s2, r, g)
                 of Inl e \<Rightarrow> Inl e
                  | Inr (dataset, index', s1', s2', r', g') \<Rightarrow> Inr (dataset, g')))))"


text \<open>A shuffle that leaves the order as it is, and a matrix of seven rows.\<close>

definition no_shuffle :: "unit shuffle" where
  "no_shuffle g xs = (xs, g)"

definition seven_rows :: "real ndarray" where
  "seven_rows = \<lparr>shape0 = 7, shape1 = 1, rows = [[0], [1], [2], [3], [4], [5], [6]]\<rparr>"

section \<open>fingerprint/setup.py\<close>

subsection \<open>The generator's state and its inputs\<close>







subsection \<open>_get_atom_types, _get_atom_length\<close>



subsection \<open>_concatenate_vec, _get_vec, return_vec\<close>




subsection \<open>get_combined_descriptors\<close>

text \<open>
  The entries of \<open>vec_list\<close> are called without arguments. What a call does besides
  returning its value is a change of the state \<open>'s\<close>, so the order of the calls is
  visible in the result. \<open>np.hstack\<close> is numpy's and is the parameter \<open>hstack\<close>;
  \<open>vec_list[::-1]\<close> is the reversed list.
\<close>

type_synonym ('s, 'r) callable = "'s \<Rightarrow> 'r \<times> 's"

definition get_combined_descriptors ::
  "('r list \<Rightarrow> 'h) \<Rightarrow> ('s, 'r) callable list \<Rightarrow> 's \<Rightarrow> error + ('h \<times> 's)" where
  "get_combined_descriptors hstack vec_list s =
     (if \<not> length vec_list \<ge> 2 then Inl AssertionError
      else
        (let labels = rev vec_list in
         case fold (\<lambda>j (L_F, s). case (labels ! j) s of (v, s') \<Rightarrow> (L_F @ [v], s'))
                   [0..<length labels] ([], s)
         of (L_F, s') \<Rightarrow> Inr (hstack L_F, s')))"

text \<open>Calling the functions of a list one after the other, first to last.\<close>

fun invoke_all :: "('s, 'r) callable list \<Rightarrow> 's \<Rightarrow> 'r list \<times> 's" where
  "invoke_all [] s = ([], s)"
| "invoke_all (f # fs) s =
     (case f s of (v, s') \<Rightarrow> (case invoke_all fs s' of (vs, s'') \<Rightarrow> (v # vs, s'')))"

subsection \<open>get_keyvaluepair\<close>

text \<open>
  The entries of \<open>c\<close> are read as \<open>atoms['key_value_pairs'][vec_name]\<close>. An entry may have
  no \<open>'key_value_pairs'\<close> at all; where it has, that is a dictionary from names to
  numbers, integers or floats. \<open>float\<close> of a number is the number (floats are taken as
  reals). Both lookups raise KeyError for a missing key.
\<close>

datatype scalar = IntV int | FloatV real


record atoms_row =
  key_value_pairs :: "(string \<rightharpoonup> scalar) option"





section \<open>Properties of the loops\<close>

subsection \<open>Loops over lists\<close>

lemma for_loop_append:
  "for_loop (xs @ ys) body s =
     (case for_loop xs body s of Inl e \<Rightarrow> Inl e | Inr s' \<Rightarrow> for_loop ys body s')"
  by (induction xs arbitrary: s) (auto split: sum.splits)

lemma for_loop_map_Pair:
  "for_loop (map (Pair i) js) (\<lambda>p. body (fst p) (snd p)) s = for_loop js (body i) s"
  by (induction js arbitrary: s) (auto split: sum.splits)

lemma for_loop_nested:
  "for_loop is (\<lambda>i. for_loop (g i) (body i)) s =
     for_loop (concat (map (\<lambda>i. map (Pair i) (g i)) is)) (\<lambda>p. body (fst p) (snd p)) s"
  by (induction "is" arbitrary: s) (auto simp: for_loop_append for_loop_map_Pair split: sum.splits)

lemma fill_row_step:
  "k < length r \<Longrightarrow> fill_row (Suc k) vs (r[k := v]) = fill_row k (v # vs) r"
  by (simp add: fill_row_def take_Suc_conv_app_nth)

lemma pair_step_flat:
  assumes "wf_ndarray A" "wf_ndarray B" "shape0 B = shape0 A"
    and "list_all (\<lambda>p. fst p < shape1 A \<and> snd p < shape1 A) ps"
    and "k + length ps \<le> shape1 B"
    and "\<And>c1 c2. length c1 = shape0 A \<Longrightarrow> length c2 = shape0 A \<Longrightarrow> 
            comb c1 c2 = map2 f c1 c2"
  shows "for_loop ps (\<lambda>p. pair_step comb A (fst p) (snd p)) (B, k) =
     Inr (B\<lparr>rows := map2 (\<lambda>r a. fill_row k (map (\<lambda>p. f (a ! fst p) (a ! snd p)) ps) r)
                         (rows B) (rows A)\<rparr>, k + length ps)"
  using assms(2,3,4,5)
proof (induction ps arbitrary: B k)
  case Nil
  have "map2 (\<lambda>r a. fill_row k [] r) (rows B) (rows A) = rows B"
    using Nil(1,2) assms(1)
    by (auto simp: fill_row_def wf_ndarray_def intro!: nth_equalityI)
  then show ?case by simp
next
  case (Cons p ps)
  obtain i j where p: "p = (i, j)" by (cases p)
  have ij: "i < shape1 A" "j < shape1 A" using Cons.prems(3) p by auto
  have lenA: "length (rows A) = shape0 A" using assms(1) by (simp add: wf_ndarray_def)
  have lenB: "length (rows B) = shape0 A" using Cons.prems(1,2) by (simp add: wf_ndarray_def)
  let ?c1 = "map (\<lambda>r. r ! i) (rows A)" and ?c2 = "map (\<lambda>r. r ! j) (rows A)"
  let ?v = "map2 f ?c1 ?c2"
  let ?B' = "B\<lparr>rows := map2 (\<lambda>r x. r[k := x]) (rows B) ?v\<rparr>"
  have comb: "comb ?c1 ?c2 = ?v" using assms(6) lenA by simp
  have k: "k < shape1 B" using Cons.prems(4) by simp
  have step: "pair_step comb A i j (B, k) = Inr (?B', k + 1)"
    using ij k lenA lenB Cons.prems(2) by (simp add: pair_step_def get_col_def set_col_def comb)
  have wfB': "wf_ndarray ?B'"
    using Cons.prems(1) lenA lenB
    by (auto simp: wf_ndarray_def list_all_iff in_set_zip)
  have IH: "for_loop ps (\<lambda>p. pair_step comb A (fst p) (snd p)) (?B', k + 1) =
     Inr (?B'\<lparr>rows := map2 (\<lambda>r a. fill_row (k + 1) (map (\<lambda>p. f (a ! fst p) (a ! snd p)) ps) r)
                         (rows ?B') (rows A)\<rparr>, k + 1 + length ps)"
    using Cons.IH[OF wfB', of "k + 1"] Cons.prems by simp
  have rowsB: "list_all (\<lambda>r. k < length r) (rows B)"
    using Cons.prems(1) k by (auto simp: wf_ndarray_def list_all_iff)
  have rows_eq: "map2 (\<lambda>r a. fill_row (k + 1) (map (\<lambda>p. f (a ! fst p) (a ! snd p)) ps) r)
                         (rows ?B') (rows A)
      = map2 (\<lambda>r a. fill_row k (map (\<lambda>p. f (a ! fst p) (a ! snd p)) (p # ps)) r)
                         (rows B) (rows A)"
    using lenA lenB rowsB
    by (auto intro!: nth_equalityI simp: p fill_row_step list_all_length)
  show ?case
    using step IH rows_eq by (simp add: p)
qed

subsection \<open>The enumeration of the pairs and the expansion loops\<close>

lemma triangular_closed: "triangular n = n * (n + 1) div 2"
proof -
  have "2 * sum_list [0..<Suc n] = n * (n + 1)"
    by (induction n) auto
  then show ?thesis by (simp add: triangular_def)
qed

lemma length_pairs_from:
  "k \<le> m \<Longrightarrow> length (concat (map (\<lambda>i. map (Pair i) [i..<m]) [k..<m])) = triangular (m - k)"
proof (induction "m - k" arbitrary: k)
  case 0
  then show ?case by (simp add: triangular_def)
next
  case (Suc d)
  then have km: "k < m" and d: "d = m - Suc k" by auto
  have "[k..<m] = k # [Suc k..<m]" using km by (simp add: upt_conv_Cons)
  then have "length (concat (map (\<lambda>i. map (Pair i) [i..<m]) [k..<m]))
      = (m - k) + triangular (m - Suc k)"
    using Suc.hyps(1)[OF d] km by simp
  also have "\<dots> = triangular (m - k)"
    using km Suc.hyps(2) by (simp add: triangular_def d[symmetric] Suc.hyps(2)[symmetric])
  finally show ?case .
qed

lemma length_pairs: "length (pairs m) = triangular m"
  using length_pairs_from[of 0 m] by (simp add: pairs_def)

lemma set_pairs: "set (pairs m) = {(i, j). i \<le> j \<and> j < m}"
  by (force simp: pairs_def)

lemma pairs_in_range: "list_all (\<lambda>p. fst p < m \<and> snd p < m) (pairs m)"
  by (auto simp: list_all_iff set_pairs)

lemma sorted_pairs_from:
  "sorted_wrt lex_less (concat (map (\<lambda>i. map (Pair i) [i..<m]) [k..<m]))"
proof (induction "m - k" arbitrary: k)
  case 0
  then show ?case by simp
next
  case (Suc d)
  then have km: "k < m" and d: "d = m - Suc k" by auto
  have up: "[k..<m] = k # [Suc k..<m]" using km by (simp add: upt_conv_Cons)
  have row: "sorted_wrt lex_less (map (Pair k) [k..<m])"
    by (simp add: sorted_wrt_map lex_less_def)
  show ?case
    unfolding up using Suc.hyps(1)[OF d] row
    by (auto simp: sorted_wrt_append lex_less_def)
qed

lemma sorted_pairs: "sorted_wrt lex_less (pairs m)"
  using sorted_pairs_from[of m 0] by (simp add: pairs_def)

lemma pair_loops_closed:
  assumes "wf_ndarray A"
    and "\<And>c1 c2. length c1 = shape0 A \<Longrightarrow> length c2 = shape0 A \<Longrightarrow>
            comb c1 c2 = map2 f c1 c2"
  shows "pair_loops comb A =
     Inr \<lparr>shape0 = shape0 A, shape1 = triangular (shape1 A),
          rows = map (\<lambda>a. map (\<lambda>p. f (a ! fst p) (a ! snd p)) (pairs (shape1 A))) (rows A)\<rparr>"
proof -
  let ?m = "shape1 A" and ?n = "shape0 A"
  let ?Z = "zeros ?n (triangular ?m) :: 'a ndarray"
  have wfZ: "wf_ndarray ?Z" by (simp add: wf_ndarray_def zeros_def list_all_iff)
  have lenA: "length (rows A) = ?n" using assms(1) by (simp add: wf_ndarray_def)
  have flat: "for_loop [0..<?m] (\<lambda>f1. for_loop [f1..<?m] (pair_step comb A f1)) (?Z, 0)
      = for_loop (pairs ?m) (\<lambda>p. pair_step comb A (fst p) (snd p)) (?Z, 0)"
    by (simp add: for_loop_nested pairs_def)
  have run: "for_loop (pairs ?m) (\<lambda>p. pair_step comb A (fst p) (snd p)) (?Z, 0) =
     Inr (?Z\<lparr>rows := map2 (\<lambda>r a. fill_row 0 (map (\<lambda>p. f (a ! fst p) (a ! snd p)) (pairs ?m)) r)
                         (rows ?Z) (rows A)\<rparr>, 0 + length (pairs ?m))"
    by (rule pair_step_flat[OF assms(1) wfZ _ pairs_in_range _ assms(2)])
       (simp_all add: zeros_def length_pairs)
  have rows: "map2 (\<lambda>r a. fill_row 0 (map (\<lambda>p. f (a ! fst p) (a ! snd p)) (pairs ?m)) r)
                         (rows ?Z) (rows A)
     = map (\<lambda>a. map (\<lambda>p. f (a ! fst p) (a ! snd p)) (pairs ?m)) (rows A)"
    using lenA by (auto intro!: nth_equalityI simp: zeros_def fill_row_def length_pairs)
  show ?thesis
    unfolding pair_loops_def Let_def flat run rows
    by (simp add: zeros_def)
qed

lemma get_order_2_closed:
  assumes "wf_ndarray A"
  shows "get_order_2 A =
     Inr \<lparr>shape0 = shape0 A, shape1 = triangular (shape1 A),
          rows = map (\<lambda>a. map (\<lambda>p. a ! fst p * a ! snd p) (pairs (shape1 A))) (rows A)\<rparr>"
  unfolding get_order_2_def by (rule pair_loops_closed[OF assms]) simp


lemma map2_same: "map2 f (map g xs) (map h xs) = map (\<lambda>x. f (g x) (h x)) xs"
  by (induction xs) auto

lemma wf_pair_result:
  "wf_ndarray A \<Longrightarrow>
   wf_ndarray \<lparr>shape0 = shape0 A, shape1 = triangular (shape1 A),
          rows = map (\<lambda>a. map (g a) (pairs (shape1 A))) (rows A)\<rparr>"
  by (simp add: wf_ndarray_def list_all_iff length_pairs)


section \<open>The pairwise expansions: results\<close>

text \<open>
  Claim C4. For every well-formed \<open>n \<times> m\<close> matrix \<open>A\<close>, \<open>get_order_2\<close> returns a matrix with
  \<open>n\<close> rows and \<open>m(m+1)/2\<close> columns. Its column \<open>k\<close> is the elementwise product of the
  columns \<open>i\<close> and \<open>j\<close> of \<open>A\<close>, where \<open>(i, j)\<close> is the \<open>k\<close>-th entry of \<open>pairs m\<close>; \<open>pairs m\<close>
  lists exactly the pairs with \<open>i \<le> j < m\<close>, in strictly increasing lexicographic
  order. For \<open>[[1,2],[3,4]]\<close> the result is \<open>[[1,2,4],[9,12,16]]\<close>.
\<close>

theorem get_order_2_columns:
  fixes A :: "('a::{zero,times}) ndarray"
  assumes "wf_ndarray A"
  shows "(\<exists>R. get_order_2 A = Inr R \<and> wf_ndarray R \<and> shape0 R = shape0 A
            \<and> shape1 R = shape1 A * (shape1 A + 1) div 2
            \<and> length (pairs (shape1 A)) = shape1 R
            \<and> (\<forall>k<shape1 R. \<exists>i j c1 c2.
                  pairs (shape1 A) ! k = (i, j) \<and> i \<le> j \<and> j < shape1 A
                  \<and> get_col A i = Inr c1 \<and> get_col A j = Inr c2
                  \<and> get_col R k = Inr (map2 (*) c1 c2)))
       \<and> sorted_wrt lex_less (pairs (shape1 A))
       \<and> set (pairs (shape1 A)) = {(i, j). i \<le> j \<and> j < shape1 A}
       \<and> get_order_2 \<lparr>shape0 = 2, shape1 = 2, rows = [[1, 2], [3, 4 :: real]]\<rparr>
           = Inr \<lparr>shape0 = 2, shape1 = 3, rows = [[1, 2, 4], [9, 12, 16]]\<rparr>"
proof -
  let ?m = "shape1 A"
  let ?R = "\<lparr>shape0 = shape0 A, shape1 = triangular ?m,
          rows = map (\<lambda>a. map (\<lambda>p. a ! fst p * a ! snd p) (pairs ?m)) (rows A)\<rparr>"
  have run: "get_order_2 A = Inr ?R" by (rule get_order_2_closed[OF assms])
  have wfR: "wf_ndarray ?R" by (rule wf_pair_result[OF assms])
  have cols: "\<exists>i j c1 c2. pairs ?m ! k = (i, j) \<and> i \<le> j \<and> j < ?m
                  \<and> get_col A i = Inr c1 \<and> get_col A j = Inr c2
                  \<and> get_col ?R k = Inr (map2 (*) c1 c2)" if k: "k < shape1 ?R" for k
  proof -
    obtain i j where ij: "pairs ?m ! k = (i, j)" by (cases "pairs ?m ! k")
    have "pairs ?m ! k \<in> set (pairs ?m)" using k by (simp add: length_pairs)
    then have le: "i \<le> j" "j < ?m" using ij by (simp_all add: set_pairs)
    have "get_col ?R k = Inr (map2 (*) (map (\<lambda>r. r ! i) (rows A)) (map (\<lambda>r. r ! j) (rows A)))"
      using k ij by (simp add: get_col_def length_pairs map2_same)
    then show ?thesis using ij le by (simp add: get_col_def)
  qed
  have ex: "get_order_2 \<lparr>shape0 = 2, shape1 = 2, rows = [[1, 2], [3, 4 :: real]]\<rparr>
           = Inr \<lparr>shape0 = 2, shape1 = 3, rows = [[1, 2, 4], [9, 12, 16]]\<rparr>"
    by code_simp
  have "\<exists>R. get_order_2 A = Inr R \<and> wf_ndarray R \<and> shape0 R = shape0 A
            \<and> shape1 R = shape1 A * (shape1 A + 1) div 2
            \<and> length (pairs (shape1 A)) = shape1 R
            \<and> (\<forall>k<shape1 R. \<exists>i j c1 c2.
                  pairs (shape1 A) ! k = (i, j) \<and> i \<le> j \<and> j < shape1 A
                  \<and> get_col A i = Inr c1 \<and> get_col A j = Inr c2
                  \<and> get_col R k = Inr (map2 (*) c1 c2))"
    apply (rule exI[of _ ?R])
    using run wfR cols by (simp add: triangular_closed length_pairs)
  then show ?thesis using ex sorted_pairs set_pairs by blast
qed

theorem get_order_2_columns_witness:
  "wf_ndarray \<lparr>shape0 = 2, shape1 = 2, rows = [[1, 2], [3, 4 :: real]]\<rparr>
   \<and> (\<exists>R. get_order_2 \<lparr>shape0 = 2, shape1 = 2, rows = [[1, 2], [3, 4 :: real]]\<rparr> = Inr R
          \<and> shape0 R = 2 \<and> shape1 R = 3)"
proof -
  have wf: "wf_ndarray \<lparr>shape0 = 2, shape1 = 2, rows = [[1, 2], [3, 4 :: real]]\<rparr>"
    by (simp add: wf_ndarray_def)
  have "\<exists>R. get_order_2 \<lparr>shape0 = 2, shape1 = 2, rows = [[1, 2], [3, 4 :: real]]\<rparr> = Inr R
          \<and> shape0 R = 2 \<and> shape1 R = 2 * (2 + 1) div 2"
    using get_order_2_columns[OF wf] by auto
  then show ?thesis using wf by simp
qed

lemma fold_snoc_map: "fold (\<lambda>x acc. acc @ [g x]) xs acc = acc @ map g xs"
  by (induction xs arbitrary: acc) auto

lemma fold_snoc_concat:
  "fold (\<lambda>x acc. acc @ h x) xs acc = acc @ concat (map h xs)"
  by (induction xs arbitrary: acc) auto

lemma get_labels_order_2_closed:
  "get_labels_order_2 x = map (\<lambda>p. x ! fst p @ ''_x_'' @ x ! snd p) (pairs (length x))"
  by (simp add: get_labels_order_2_def Let_def fold_snoc_map fold_snoc_concat pairs_def
        map_concat comp_def)

text \<open>
  Claim C5. For a label vector \<open>x\<close> of length \<open>m\<close>, \<open>get_labels_order_2\<close> returns
  \<open>m(m+1)/2\<close> labels, as many as \<open>get_order_2\<close> returns columns for a matrix of \<open>m\<close>
  columns. For every \<open>k\<close> the \<open>k\<close>-th label is \<open>x[i] + '_x_' + x[j]\<close> and the \<open>k\<close>-th column
  is the product of the columns \<open>i\<close> and \<open>j\<close>, for the same pair \<open>(i, j)\<close>, the \<open>k\<close>-th of the
  enumeration: labels and columns are aligned.
\<close>

theorem get_labels_order_2_aligned:
  fixes A :: "('a::{zero,times}) ndarray"
  assumes "wf_ndarray A" and "shape1 A = length x"
  shows "length (get_labels_order_2 x) = length x * (length x + 1) div 2
       \<and> (\<exists>R. get_order_2 A = Inr R \<and> shape1 R = length (get_labels_order_2 x)
            \<and> (\<forall>k<shape1 R. \<exists>i j c1 c2.
                  pairs (length x) ! k = (i, j) \<and> i \<le> j \<and> j < length x
                  \<and> get_labels_order_2 x ! k = x ! i @ ''_x_'' @ x ! j
                  \<and> get_col A i = Inr c1 \<and> get_col A j = Inr c2
                  \<and> get_col R k = Inr (map2 (*) c1 c2)))"
proof -
  let ?m = "length x"
  let ?R = "\<lparr>shape0 = shape0 A, shape1 = triangular ?m,
          rows = map (\<lambda>a. map (\<lambda>p. a ! fst p * a ! snd p) (pairs ?m)) (rows A)\<rparr>"
  have run: "get_order_2 A = Inr ?R"
    using get_order_2_closed[OF assms(1)] assms(2) by simp
  have len: "length (get_labels_order_2 x) = triangular ?m"
    by (simp add: get_labels_order_2_closed length_pairs)
  have cols: "\<exists>i j c1 c2. pairs ?m ! k = (i, j) \<and> i \<le> j \<and> j < ?m
                  \<and> get_labels_order_2 x ! k = x ! i @ ''_x_'' @ x ! j
                  \<and> get_col A i = Inr c1 \<and> get_col A j = Inr c2
                  \<and> get_col ?R k = Inr (map2 (*) c1 c2)" if k: "k < triangular ?m" for k
  proof -
    obtain i j where ij: "pairs ?m ! k = (i, j)" by (cases "pairs ?m ! k")
    have "pairs ?m ! k \<in> set (pairs ?m)" using k by (simp add: length_pairs)
    then have le: "i \<le> j" "j < ?m" using ij by (simp_all add: set_pairs)
    have lab: "get_labels_order_2 x ! k = x ! i @ ''_x_'' @ x ! j"
      using k ij by (simp add: get_labels_order_2_closed length_pairs)
    have "get_col ?R k = Inr (map2 (*) (map (\<lambda>r. r ! i) (rows A)) (map (\<lambda>r. r ! j) (rows A)))"
      using k ij by (simp add: get_col_def length_pairs map2_same)
    then show ?thesis using ij le lab assms(2) by (simp add: get_col_def)
  qed
  show ?thesis
    using run len cols by (simp add: triangular_closed)
qed

theorem get_labels_order_2_aligned_witness:
  "wf_ndarray \<lparr>shape0 = 1, shape1 = 2, rows = [[5, 7 :: real]]\<rparr>
   \<and> length (get_labels_order_2 [''a'', ''b'']) = 3
   \<and> (\<exists>R. get_order_2 \<lparr>shape0 = 1, shape1 = 2, rows = [[5, 7 :: real]]\<rparr> = Inr R
          \<and> shape1 R = length (get_labels_order_2 [''a'', ''b'']))"
proof -
  have wf: "wf_ndarray \<lparr>shape0 = 1, shape1 = 2, rows = [[5, 7 :: real]]\<rparr>"
    by (simp add: wf_ndarray_def)
  have both: "length (get_labels_order_2 [''a'', ''b'']) = length [''a'', ''b''] * (length [''a'', ''b''] + 1) div 2
    \<and> (\<exists>R. get_order_2 \<lparr>shape0 = 1, shape1 = 2, rows = [[5, 7 :: real]]\<rparr> = Inr R
          \<and> shape1 R = length (get_labels_order_2 [''a'', ''b'']))"
    using get_labels_order_2_aligned[OF wf, of "[''a'', ''b'']"] by fastforce
  then have l: "length (get_labels_order_2 [''a'', ''b'']) = 3" by simp
  show ?thesis using wf l both by blast
qed

lemma get_order_2ab_closed:
  assumes "wf_ndarray A"
  shows "get_order_2ab pw A a b =
     Inr \<lparr>shape0 = shape0 A, shape1 = triangular (shape1 A),
          rows = map (\<lambda>r. map (\<lambda>p. pw (r ! fst p) a * pw (r ! snd p) b) (pairs (shape1 A)))
                     (rows A)\<rparr>"
  unfolding get_order_2ab_def
  by (rule pair_loops_closed[OF assms]) (auto simp: zip_map_map)

text \<open>
  Claim C6. \<open>get_order_2ab\<close> and \<open>get_order_2\<close> enumerate the columns alike: both results
  have the same shape, and for every \<open>k\<close> the pair \<open>(i, j)\<close> whose product is column \<open>k\<close> of
  \<open>get_order_2\<close> is the pair for which column \<open>k\<close> of \<open>get_order_2ab\<close> is
  \<open>column_i ** a * column_j ** b\<close>. Where the power satisfies \<open>x ** 1 = x\<close>, the result for
  \<open>a = b = 1\<close> is the result of \<open>get_order_2\<close>.
\<close>

theorem get_order_2ab_columns:
  fixes A :: "('a::{zero,times}) ndarray"
  assumes "wf_ndarray A"
  shows "(\<exists>R R2. get_order_2ab pw A a b = Inr R \<and> get_order_2 A = Inr R2
            \<and> wf_ndarray R \<and> shape0 R = shape0 R2 \<and> shape1 R = shape1 R2
            \<and> (\<forall>k<shape1 R. \<exists>i j c1 c2.
                  pairs (shape1 A) ! k = (i, j) \<and> i \<le> j \<and> j < shape1 A
                  \<and> get_col A i = Inr c1 \<and> get_col A j = Inr c2
                  \<and> get_col R2 k = Inr (map2 (*) c1 c2)
                  \<and> get_col R k =
                      Inr (map2 (*) (map (\<lambda>x. pw x a) c1) (map (\<lambda>x. pw x b) c2))))
       \<and> ((\<forall>x. pw x one = x) \<longrightarrow> get_order_2ab pw A one one = get_order_2 A)"
proof -
  let ?m = "shape1 A"
  let ?R = "\<lparr>shape0 = shape0 A, shape1 = triangular ?m,
          rows = map (\<lambda>r. map (\<lambda>p. pw (r ! fst p) a * pw (r ! snd p) b) (pairs ?m)) (rows A)\<rparr>"
  let ?R2 = "\<lparr>shape0 = shape0 A, shape1 = triangular ?m,
          rows = map (\<lambda>r. map (\<lambda>p. r ! fst p * r ! snd p) (pairs ?m)) (rows A)\<rparr>"
  have run: "get_order_2ab pw A a b = Inr ?R" by (rule get_order_2ab_closed[OF assms])
  have run2: "get_order_2 A = Inr ?R2" by (rule get_order_2_closed[OF assms])
  have wfR: "wf_ndarray ?R" by (rule wf_pair_result[OF assms])
  have cols: "\<exists>i j c1 c2. pairs ?m ! k = (i, j) \<and> i \<le> j \<and> j < ?m
                  \<and> get_col A i = Inr c1 \<and> get_col A j = Inr c2
                  \<and> get_col ?R2 k = Inr (map2 (*) c1 c2)
                  \<and> get_col ?R k =
                      Inr (map2 (*) (map (\<lambda>x. pw x a) c1) (map (\<lambda>x. pw x b) c2))"
    if k: "k < triangular ?m" for k
  proof -
    obtain i j where ij: "pairs ?m ! k = (i, j)" by (cases "pairs ?m ! k")
    have "pairs ?m ! k \<in> set (pairs ?m)" using k by (simp add: length_pairs)
    then have le: "i \<le> j" "j < ?m" using ij by (simp_all add: set_pairs)
    have c2: "get_col ?R2 k = Inr (map2 (*) (map (\<lambda>r. r ! i) (rows A)) (map (\<lambda>r. r ! j) (rows A)))"
      using k ij by (simp add: get_col_def length_pairs map2_same)
    have c: "get_col ?R k = Inr (map2 (*) (map (\<lambda>x. pw x a) (map (\<lambda>r. r ! i) (rows A)))
                                        (map (\<lambda>x. pw x b) (map (\<lambda>r. r ! j) (rows A))))"
      using k ij by (simp add: get_col_def length_pairs map2_same comp_def)
    show ?thesis using ij le c c2 by (simp add: get_col_def)
  qed
  have first: "\<exists>R R2. get_order_2ab pw A a b = Inr R \<and> get_order_2 A = Inr R2
            \<and> wf_ndarray R \<and> shape0 R = shape0 R2 \<and> shape1 R = shape1 R2
            \<and> (\<forall>k<shape1 R. \<exists>i j c1 c2.
                  pairs (shape1 A) ! k = (i, j) \<and> i \<le> j \<and> j < shape1 A
                  \<and> get_col A i = Inr c1 \<and> get_col A j = Inr c2
                  \<and> get_col R2 k = Inr (map2 (*) c1 c2)
                  \<and> get_col R k =
                      Inr (map2 (*) (map (\<lambda>x. pw x a) c1) (map (\<lambda>x. pw x b) c2)))"
    apply (rule exI[of _ ?R], rule exI[of _ ?R2])
    using run run2 wfR cols by simp
  have second: "get_order_2ab pw A one one = get_order_2 A" if "\<forall>x. pw x one = x"
    using that by (simp add: get_order_2ab_closed[OF assms] get_order_2_closed[OF assms])
  show ?thesis using first second by blast
qed

theorem get_order_2ab_columns_witness:
  "wf_ndarray \<lparr>shape0 = 2, shape1 = 2, rows = [[1, 2], [3, 4 :: real]]\<rparr>
   \<and> (\<forall>x::real. x ^ (1::nat) = x)
   \<and> get_order_2ab (^) \<lparr>shape0 = 2, shape1 = 2, rows = [[1, 2], [3, 4 :: real]]\<rparr> (1::nat) 1
       = get_order_2 \<lparr>shape0 = 2, shape1 = 2, rows = [[1, 2], [3, 4 :: real]]\<rparr>
   \<and> (\<exists>R. get_order_2ab (^) \<lparr>shape0 = 2, shape1 = 2, rows = [[1, 2], [3, 4 :: real]]\<rparr>
            (2::nat) 3 = Inr R \<and> wf_ndarray R)"
proof -
  have wf: "wf_ndarray \<lparr>shape0 = 2, shape1 = 2, rows = [[1, 2], [3, 4 :: real]]\<rparr>"
    by (simp add: wf_ndarray_def)
  have p: "\<forall>x::real. x ^ (1::nat) = x" by simp
  have a: "get_order_2ab (^) \<lparr>shape0 = 2, shape1 = 2, rows = [[1, 2], [3, 4 :: real]]\<rparr> (1::nat) 1
       = get_order_2 \<lparr>shape0 = 2, shape1 = 2, rows = [[1, 2], [3, 4 :: real]]\<rparr>"
    using get_order_2ab_columns[OF wf, of "(^)" 1 1 1] p by blast
  have b: "\<exists>R. get_order_2ab (^) \<lparr>shape0 = 2, shape1 = 2, rows = [[1, 2], [3, 4 :: real]]\<rparr>
            (2::nat) 3 = Inr R \<and> wf_ndarray R"
    using get_order_2ab_columns[OF wf, of "(^)" 2 3 1] by blast
  show ?thesis using wf p a b by blast
qed

section \<open>do_sis and fpmatrix_split: results\<close>

text \<open>
  Claim C1. The claim expects four calls of the oracle and a result of two columns for
  a matrix of six columns, \<open>size=2\<close> and \<open>increment=1\<close>. The loop test reads the shape
  taken before the last narrowing, so the loop runs once more: with an oracle that
  accepts the first \<open>size\<close> columns there are five calls, requesting 5, 4, 3, 2 and 1
  columns, and the result has one column and one label.
\<close>

theorem do_sis_six_columns:
  "do_sis first_k \<lparr>shape0 = 1, shape1 = 6, rows = [[1, 2, 3, 4, 5, 6 :: real]]\<rparr> [0 :: real]
          (Some [''a'', ''b'', ''c'', ''d'', ''e'', ''f'']) (Some 2) 1
     = Some (Inr (\<lparr>shape0 = 1, shape1 = 1, rows = [[1]]\<rparr>, Some [''a'']), [5, 4, 3, 2, 1])"
  by code_simp

text \<open>
  Claim C10. With \<open>l\<close> left at \<open>None\<close>, \<open>do_sis\<close> raises at the assertion, whatever the
  matrix, the targets, the size, the increment and the oracle are, and the oracle has
  not been called.
\<close>

theorem do_sis_without_labels:
  "do_sis sis X y None size' increment = Some (Inl TypeError, [])"
  by (simp add: do_sis_def)

text \<open>
  Claim C2. The claim expects group sizes that differ by at most one. For seven rows
  and \<open>nsplit=4\<close> the quotient is \<open>n = 1.75\<close> and the remainder \<open>r = 3\<close>; the bounds
  \<open>s2\<close> are 2.75, 5.5, 8.25 and 10, truncated to 2, 5, 8 and 10: the groups have 2, 3, 2
  and 0 rows.
\<close>

theorem fpmatrix_split_seven_by_four:
  "fpmatrix_split no_shuffle () seven_rows 4 None False
     = Inr ([\<lparr>shape0 = 2, shape1 = 1, rows = [[0], [1]]\<rparr>,
             \<lparr>shape0 = 3, shape1 = 1, rows = [[2], [3], [4]]\<rparr>,
             \<lparr>shape0 = 2, shape1 = 1, rows = [[5], [6]]\<rparr>,
             \<lparr>shape0 = 0, shape1 = 1, rows = []\<rparr>], ())"
  by code_simp

section \<open>The feature generator: results\<close>

lemma fold_index_list:
  "fold (\<lambda>j. g (fs ! j)) [0..<length fs] st = fold g fs st"
proof -
  have "fold (\<lambda>j. g (fs ! j)) [0..<length fs] st = fold g (map ((!) fs) [0..<length fs]) st"
    by (simp add: fold_map comp_def)
  then show ?thesis by (simp add: map_nth)
qed

lemma fold_calls:
  "fold (\<lambda>f (L_F, s). case f s of (v, s') \<Rightarrow> (L_F @ [v], s')) fs (L, s)
     = (L @ fst (invoke_all fs s), snd (invoke_all fs s))"
  by (induction fs arbitrary: L s) (auto split: prod.splits)

text \<open>
  Claim C7. Given at least two functions, \<open>get_combined_descriptors\<close> calls them in the
  reverse of the order of the list, each on the state the call before left, and
  returns \<open>np.hstack\<close> of the results in the order of the calls. Given fewer than two
  it fails at the assertion.
\<close>

theorem get_combined_descriptors_reversed:
  "(2 \<le> length vec_list \<longrightarrow>
      get_combined_descriptors hstack vec_list s =
        Inr (hstack (fst (invoke_all (rev vec_list) s)), snd (invoke_all (rev vec_list) s)))
   \<and> (length vec_list < 2 \<longrightarrow>
      get_combined_descriptors hstack vec_list s = Inl AssertionError)"
proof -
  have "fold (\<lambda>j (L_F, s). case (rev vec_list ! j) s of (v, s') \<Rightarrow> (L_F @ [v], s'))
          [0..<length (rev vec_list)] ([], s)
        = (fst (invoke_all (rev vec_list) s), snd (invoke_all (rev vec_list) s))"
    using fold_index_list[of "\<lambda>f (L_F, s). case f s of (v, s') \<Rightarrow> (L_F @ [v], s')"
                              "rev vec_list" "([], s)"]
    by (simp add: fold_calls)
  then show ?thesis
    by (simp add: get_combined_descriptors_def Let_def split: prod.splits del: length_rev)
qed

theorem get_combined_descriptors_reversed_witness:
  "2 \<le> length [\<lambda>s::nat. ([s, 1], s + 1), \<lambda>s. ([s, 2], s * 2), \<lambda>s. ([s, 3], s + 5)]
   \<and> get_combined_descriptors concat
        [\<lambda>s::nat. ([s, 1], s + 1), \<lambda>s. ([s, 2], s * 2), \<lambda>s. ([s, 3], s + 5)] 0
      = Inr ([0, 3, 5, 2, 10, 1], 11)
   \<and> length [\<lambda>s::nat. ([s, 1 :: nat], s + 1)] < 2
   \<and> get_combined_descriptors concat [\<lambda>s::nat. ([s, 1 :: nat], s + 1)] 0 = Inl AssertionError"
  using get_combined_descriptors_reversed
          [of "[\<lambda>s::nat. ([s, 1], s + 1), \<lambda>s. ([s, 2], s * 2), \<lambda>s. ([s, 3], s + 5)]" concat 0]
        get_combined_descriptors_reversed [of "[\<lambda>s::nat. ([s, 1 :: nat], s + 1)]" concat 0]
  by simp






section \<open>fpmatrix_split: the groups partition the rows\<close>













end
